theory Spec2Isabelle
  imports Complex_Main "HOL-Library.Sublist" "HOL-Library.Multiset" "HOL-Library.Log_Nat"
begin

section \<open>Order reconciliation of the registration site: data model\<close>

text \<open>
  The development embeds the order-processing page \<^verbatim>\<open>ThankYouRefactored.js\<close> and the
  queue helpers of \<^verbatim>\<open>NewSeasonRegRefactored_SafeFallback.js\<close> and
  \<^verbatim>\<open>NewSeasonRegRefactored.js\<close>.

  JavaScript values are modelled as follows. A property that may be \<^verbatim>\<open>undefined\<close> or
  \<^verbatim>\<open>null\<close> is an \<open>option\<close>. Quantities are integers. A price property of an order holds
  the rational value of its JSON number; the page reads it as the nearest double and
  multiplies doubles, so computed amounts are values of \<open>jsnum\<close> below. Dates are milliseconds
  since the epoch, as \<^verbatim>\<open>Date.now()\<close> gives them.
\<close>

subsection \<open>JavaScript numbers\<close>

text \<open>
  A number of the page is an IEEE 754 binary64 value: a finite double (here the rational it
  denotes; the two zeros, which are equal under \<^verbatim>\<open>===\<close>, are one value), an infinity or NaN.
\<close>

datatype jsnum = Finite rat | PosInfinity | NegInfinity | NaN

definition pow2 :: "int \<Rightarrow> rat" where
  "pow2 k = (if 0 \<le> k then 2 ^ nat k else 1 / 2 ^ nat (- k))"

text \<open>The binary exponent of a positive rational \<open>m\<close>: the \<open>k\<close> with \<open>2 ^ k \<le> m < 2 ^ (k + 1)\<close>,
  found from the bit lengths of numerator and denominator.\<close>

definition binaryExponent :: "rat \<Rightarrow> int" where
  "binaryExponent m =
     (let k = bitlen (fst (quotient_of m)) - bitlen (snd (quotient_of m))
      in if pow2 k \<le> m then k else k - 1)"

text \<open>Rounding to the nearest integer, ties to the even one.\<close>

definition roundHalfEven :: "rat \<Rightarrow> int" where
  "roundHalfEven q =
     (let f = \<lfloor>q\<rfloor>; r = q - of_int f
      in if r < 1 / 2 then f else if 1 / 2 < r then f + 1 else if even f then f else f + 1)"

text \<open>
  The double nearest to a rational (round to nearest, ties to even): a significand of 53
  bits, the exponent of the last bit no smaller than -1074 (below that the doubles are
  subnormal), and an infinity when the rounded value reaches \<open>2 ^ 1024\<close>. The rounded value
  is at most \<open>2 ^ 53 * 2 ^ e\<close>, so it can reach \<open>2 ^ 1024\<close> only when \<open>e\<close> is at least 971.
\<close>

definition toDouble :: "rat \<Rightarrow> jsnum" where
  "toDouble x =
     (if x = 0 then Finite 0
      else
        (let m = \<bar>x\<bar>;
             e = max (binaryExponent m - 52) (- 1074);
             v = of_int (roundHalfEven (m / pow2 e)) * pow2 e
         in if e < 971 then Finite (if 0 < x then v else - v)
            else if pow2 1024 \<le> v then (if 0 < x then PosInfinity else NegInfinity)
            else Finite (if 0 < x then v else - v)))"

definition jsSign :: "jsnum \<Rightarrow> int" where
  "jsSign x =
     (case x of
        Finite a \<Rightarrow> (if a = 0 then 0 else if 0 < a then 1 else - 1)
      | PosInfinity \<Rightarrow> 1
      | NegInfinity \<Rightarrow> - 1
      | NaN \<Rightarrow> 0)"

text \<open>The operator \<^verbatim>\<open>*\<close> on doubles: the exact product, rounded; a product with an infinity is
  an infinity of the product's sign, and NaN when the other factor is zero or NaN.\<close>

definition jsTimes :: "jsnum \<Rightarrow> jsnum \<Rightarrow> jsnum" where
  "jsTimes x y =
     (case (x, y) of
        (Finite a, Finite b) \<Rightarrow> toDouble (a * b)
      | _ \<Rightarrow>
          (if x = NaN \<or> y = NaN \<or> jsSign x * jsSign y = 0 then NaN
           else if 0 < jsSign x * jsSign y then PosInfinity else NegInfinity))"

subsection \<open>Queue entries, line items, orders\<close>

text \<open>A queued registration (the object built by \<^verbatim>\<open>collectFormData\<close>, with its fee).\<close>

record reg =
  playerId :: string
  playerName :: string
  seasonName :: string
  sport :: string
  division :: string
  fee :: jsnum

text \<open>The object handed to \<^verbatim>\<open>batchSaveRegistrations\<close>:
  \<^verbatim>\<open>{ ...reg, fee: paidAmount, paid: true, orderId, datePaid: new Date() }\<close>.\<close>

record registration = reg +
  paid :: bool
  orderId :: string
  datePaid :: int

text \<open>A line item of the order. \<open>name\<close> is \<open>None\<close> when the property is not a string.\<close>

record lineItem =
  productId :: "string option"
  name :: "string option"
  quantity :: "int option"
  price :: "rat option"
  totalPrice :: "rat option"

subsection \<open>\<^verbatim>\<open>String.prototype.includes\<close>\<close>

fun starts_with :: "string \<Rightarrow> string \<Rightarrow> bool" where
  "starts_with s [] = True"
| "starts_with [] (c # cs) = False"
| "starts_with (d # ds) (c # cs) = (d = c \<and> starts_with ds cs)"

fun str_includes :: "string \<Rightarrow> string \<Rightarrow> bool" where
  "str_includes [] t = (t = [])"
| "str_includes (d # ds) t = (starts_with (d # ds) t \<or> str_includes ds t)"

section \<open>Matching registrations to line items\<close>

text \<open>\<^verbatim>\<open>li.quantity || 1\<close>: a missing quantity and the quantity 0 are falsy.\<close>

definition quantityOr1 :: "lineItem \<Rightarrow> int" where
  "quantityOr1 l = (case quantity l of None \<Rightarrow> 1 | Some q \<Rightarrow> if q = 0 then 1 else q)"

text \<open>\<^verbatim>\<open>lineItem.price || 0\<close>: the price as the page reads it, 0 when it is missing (a price
  that reads as 0 is falsy and gives 0 as well).\<close>

definition priceOr0 :: "lineItem \<Rightarrow> jsnum" where
  "priceOr0 l = (case price l of None \<Rightarrow> Finite 0 | Some p \<Rightarrow> toDouble p)"

record slot =
  li :: lineItem
  used :: bool

text \<open>The two nested loops that push \<^verbatim>\<open>{ li, used: false }\<close> once per unit
  (\<^verbatim>\<open>for (let i = 0; i < qty; i++)\<close> runs no iteration for a negative quantity).\<close>

fun buildSlots :: "lineItem list \<Rightarrow> slot list" where
  "buildSlots [] = []"
| "buildSlots (l # ls) = replicate (nat (quantityOr1 l)) \<lparr>li = l, used = False\<rparr> @ buildSlots ls"

text \<open>\<^verbatim>\<open>Array.prototype.findIndex\<close>; \<open>None\<close> stands for \<^verbatim>\<open>-1\<close>.\<close>

fun findIndex :: "('a \<Rightarrow> bool) \<Rightarrow> 'a list \<Rightarrow> nat option" where
  "findIndex P [] = None"
| "findIndex P (x # xs) = (if P x then Some 0 else map_option Suc (findIndex P xs))"

text \<open>The predicate given to \<^verbatim>\<open>findIndex\<close>:
  \<^verbatim>\<open>!s.used && typeof s.li.name === 'string' && s.li.name.includes(reg.division)\<close>.\<close>

definition slotAccepts :: "reg \<Rightarrow> slot \<Rightarrow> bool" where
  "slotAccepts r s =
     (\<not> used s \<and> (case name (li s) of None \<Rightarrow> False | Some n \<Rightarrow> str_includes n (division r)))"

text \<open>The loop over \<^verbatim>\<open>regQueue\<close>; \<open>matched\<close> and \<open>unmatched\<close> are the two arrays the loop
  pushes to.\<close>

fun matchLoop ::
  "reg list \<Rightarrow> slot list \<Rightarrow> (reg \<times> lineItem) list \<Rightarrow> reg list \<Rightarrow> (reg \<times> lineItem) list \<times> reg list"
where
  "matchLoop [] slots matched unmatched = (matched, unmatched)"
| "matchLoop (r # rs) slots matched unmatched =
     (case findIndex (slotAccepts r) slots of
        Some idx \<Rightarrow>
          matchLoop rs (slots[idx := (slots ! idx)\<lparr>used := True\<rparr>])
            (matched @ [(r, li (slots ! idx))]) unmatched
      | None \<Rightarrow> matchLoop rs slots matched (unmatched @ [r]))"

definition matchRegistrationsToLineItems ::
  "reg list \<Rightarrow> lineItem list \<Rightarrow> (reg \<times> lineItem) list \<times> reg list"
where
  "matchRegistrationsToLineItems regQueue lineItems = matchLoop regQueue (buildSlots lineItems) [] []"

subsection \<open>The fee recorded on a saved registration\<close>

text \<open>\<^verbatim>\<open>lineItem.totalPrice ?? ((lineItem.price || 0) * (lineItem.quantity || 1))\<close>.\<close>

definition paidAmount :: "lineItem \<Rightarrow> jsnum" where
  "paidAmount l =
     (case totalPrice l of
        Some t \<Rightarrow> toDouble t
      | None \<Rightarrow> jsTimes (priceOr0 l) (toDouble (of_int (quantityOr1 l))))"

definition toSave :: "string \<Rightarrow> int \<Rightarrow> reg \<times> lineItem \<Rightarrow> registration" where
  "toSave oid now m =
     \<lparr>playerId = playerId (fst m), playerName = playerName (fst m),
      seasonName = seasonName (fst m), sport = sport (fst m), division = division (fst m),
      fee = paidAmount (snd m), paid = True, orderId = oid, datePaid = now\<rparr>"

definition registrationsToSave :: "string \<Rightarrow> int \<Rightarrow> (reg \<times> lineItem) list \<Rightarrow> registration list" where
  "registrationsToSave oid now matched = map (toSave oid now) matched"

subsection \<open>The matching and the fee as the specification words them\<close>


definition spec_expand :: "(lineItem \<Rightarrow> nat) \<Rightarrow> lineItem list \<Rightarrow> lineItem list" where
  "spec_expand units ls = concat (map (\<lambda>l. replicate (units l) l) ls)"

text \<open>The descriptor textually contains the division label.\<close>

definition spec_contains :: "lineItem \<Rightarrow> reg \<Rightarrow> bool" where
  "spec_contains l r = (case name l of None \<Rightarrow> False | Some n \<Rightarrow> sublist (division r) n)"

text \<open>The first slot, in slot order, that is not used yet and qualifies.\<close>

definition spec_first_unused :: "lineItem list \<Rightarrow> nat set \<Rightarrow> reg \<Rightarrow> nat option" where
  "spec_first_unused slots U r =
     List.find (\<lambda>i. i \<notin> U \<and> spec_contains (slots ! i) r) [0..<length slots]"

text \<open>Each intent, in order, takes the first unused qualifying slot, which becomes used; an
  intent without one is unmatched. The result pairs each matched intent with the index of
  its slot.\<close>

fun spec_greedy :: "lineItem list \<Rightarrow> nat set \<Rightarrow> reg list \<Rightarrow> (reg \<times> nat) list \<times> reg list" where
  "spec_greedy slots U [] = ([], [])"
| "spec_greedy slots U (r # rs) =
     (case spec_first_unused slots U r of
        None \<Rightarrow> (fst (spec_greedy slots U rs), r # snd (spec_greedy slots U rs))
      | Some i \<Rightarrow>
          ((r, i) # fst (spec_greedy slots (insert i U) rs), snd (spec_greedy slots (insert i U) rs)))"

definition spec_match ::
  "(lineItem \<Rightarrow> nat) \<Rightarrow> reg list \<Rightarrow> lineItem list \<Rightarrow> (reg \<times> lineItem) list \<times> reg list"
where
  "spec_match units intents ls =
     (map (\<lambda>p. (fst p, spec_expand units ls ! snd p)) (fst (spec_greedy (spec_expand units ls) {} intents)),
      snd (spec_greedy (spec_expand units ls) {} intents))"

text \<open>The per-unit price: the total price of the line divided by its quantity, as
  numbers.\<close>

definition spec_lineTotal :: "lineItem \<Rightarrow> rat" where
  "spec_lineTotal l =
     (case totalPrice l of
        Some t \<Rightarrow> t
      | None \<Rightarrow> (case price l of None \<Rightarrow> 0 | Some p \<Rightarrow> p) * of_int (case quantity l of None \<Rightarrow> 0 | Some q \<Rightarrow> q))"

definition spec_perUnitPrice :: "lineItem \<Rightarrow> rat" where
  "spec_perUnitPrice l = spec_lineTotal l / of_int (case quantity l of None \<Rightarrow> 0 | Some q \<Rightarrow> q)"

text \<open>The number of slots the page builds for a line item, and the slots of a slot array
  that are marked used.\<close>

definition code_units :: "lineItem \<Rightarrow> nat" where
  "code_units l = nat (quantityOr1 l)"

definition usedSet :: "slot list \<Rightarrow> nat set" where
  "usedSet slots = {i. i < length slots \<and> used (slots ! i)}"


section \<open>The world the order page runs in\<close>

text \<open>
  The page works on the session storage, on three collections of the content store
  (\<^verbatim>\<open>PendingRegistrations\<close>, \<^verbatim>\<open>SeasonRegistration\<close>, \<^verbatim>\<open>AirtableSyncErrors\<close>), on the external
  synchronisation target and on the notification channel. Every call that leaves the page
  may fail: the outcomes of these calls are an input of the run, held in the world as two
  lists that the calls consume in order (\<open>faults\<close>: one entry per call to the content store or
  to the synchronisation of a registration, \<open>True\<close> when the call fails;
  \<open>donationOutcomes\<close>: one entry per call to \<^verbatim>\<open>saveDonation\<close>). An exhausted list means that
  the remaining calls succeed.
\<close>

datatype exn = WixDataError | SyntaxError | DonationSyncError

datatype serialized = Absent | Json "reg list" | Corrupt

datatype source = SrcSession | SrcCms | SrcNone

datatype donationOutcome = DonationSaved | DonationRejected string | DonationThrows

record pendingReg =
  pid :: string
  userId :: string
  status :: string
  createdAt :: int
  registrations :: serialized

record syncError =
  se_orderId :: "string option"
  se_playerName :: string
  se_parentId :: "string option"
  se_division :: string
  errorType :: string
  errorMessage :: string
  errorTimestamp :: int

record donationRecord =
  donorName :: string
  donationAmount :: int
  donorEmail :: string

record syncResult =
  success :: bool
  errorText :: "string option"

record batchResult =
  total :: nat
  successful :: nat
  partial :: nat
  failed :: nat

record order =
  order_id :: "string option"
  buyerInfo_id :: "string option"
  enteredBy_id :: "string option"
  billing_firstName :: "string option"
  billing_lastName :: "string option"
  billing_email :: "string option"
  lineItems :: "lineItem list option"

record world =
  clock :: int
  sessionRegQueue :: serialized
  processingLocks :: "string set"
  processedOrders :: "string set"
  donationSynced :: bool
  PendingRegistrations :: "pendingReg list"
  SeasonRegistration :: "registration list"
  AirtableSyncErrors :: "syncError list"
  syncedDonations :: "donationRecord list"
  syncedRegistrations :: "registration list"
  notifications :: "order list"
  donationOutcomes :: "donationOutcome list"
  faults :: "bool list"

subsection \<open>JavaScript helpers\<close>

text \<open>Truthiness of a string property: \<^verbatim>\<open>undefined\<close>, \<^verbatim>\<open>null\<close> and the empty string are falsy.\<close>

definition truthy :: "string option \<Rightarrow> bool" where
  "truthy x = (case x of None \<Rightarrow> False | Some s \<Rightarrow> s \<noteq> [])"

text \<open>\<^verbatim>\<open>a || b\<close> on string properties.\<close>

definition jsOr :: "string option \<Rightarrow> string option \<Rightarrow> string option" where
  "jsOr a b = (if truthy a then a else b)"

text \<open>\<^verbatim>\<open>x || ''\<close>.\<close>

definition orEmpty :: "string option \<Rightarrow> string" where
  "orEmpty x = (case x of None \<Rightarrow> [] | Some s \<Rightarrow> s)"

text \<open>String concatenation turns a missing property into the text \<^verbatim>\<open>undefined\<close>.\<close>

definition toText :: "string option \<Rightarrow> string" where
  "toText x = (case x of None \<Rightarrow> ''undefined'' | Some s \<Rightarrow> s)"

definition isSpace :: "char \<Rightarrow> bool" where
  "isSpace c = (c = CHR '' '' \<or> c = CHR 0x09 \<or> c = CHR 0x0A \<or> c = CHR 0x0B \<or> c = CHR 0x0C \<or> c = CHR 0x0D)"

definition trim :: "string \<Rightarrow> string" where
  "trim s = rev (dropWhile isSpace (rev (dropWhile isSpace s)))"

text \<open>\<^verbatim>\<open>JSON.parse(x || '[]')\<close>: \<open>None\<close> when the parse throws.\<close>

definition parseQueue :: "serialized \<Rightarrow> reg list option" where
  "parseQueue x = (case x of Absent \<Rightarrow> Some [] | Json q \<Rightarrow> Some q | Corrupt \<Rightarrow> None)"

text \<open>Two queue entries are the same registration when player, season and sport agree.\<close>

definition sameIdentity :: "reg \<Rightarrow> reg \<Rightarrow> bool" where
  "sameIdentity a b = (playerId a = playerId b \<and> seasonName a = seasonName b \<and> sport a = sport b)"

definition identity :: "reg \<Rightarrow> string \<times> string \<times> string" where
  "identity r = (playerId r, seasonName r, sport r)"

subsection \<open>The session manager\<close>

text \<open>Queue access as the fallbacks of \<^verbatim>\<open>NewSeasonRegRefactored_SafeFallback.js\<close> define it:
  \<^verbatim>\<open>getRegQueue\<close> parses the stored text and yields the empty list when the parse throws.\<close>

definition getRegQueue :: "world \<Rightarrow> reg list" where
  "getRegQueue w = (case parseQueue (sessionRegQueue w) of None \<Rightarrow> [] | Some q \<Rightarrow> q)"

definition setRegQueue :: "reg list \<Rightarrow> world \<Rightarrow> world" where
  "setRegQueue q w = w\<lparr>sessionRegQueue := Json q\<rparr>"

definition addToRegQueue :: "reg \<Rightarrow> world \<Rightarrow> world" where
  "addToRegQueue item w = setRegQueue (getRegQueue w @ [item]) w"

definition isDuplicateInQueue :: "reg \<Rightarrow> world \<Rightarrow> bool" where
  "isDuplicateInQueue x w = list_ex (\<lambda>r. sameIdentity r x) (getRegQueue w)"

text \<open>Modelled from the spec: \<^verbatim>\<open>isOrderProcessed\<close> of \<^verbatim>\<open>backend/sessionManager.jsw\<close>, which is
  not among the sources. The order-processed marker is keyed by the order id.\<close>

definition isOrderProcessed :: "string \<Rightarrow> world \<Rightarrow> bool" where
  "isOrderProcessed oid w = (oid \<in> processedOrders w)"

text \<open>Modelled from the spec: \<^verbatim>\<open>acquireProcessingLock\<close> of \<^verbatim>\<open>backend/sessionManager.jsw\<close>,
  which is not among the sources. The lock is keyed by the order id and exclusive; acquiring
  it fails when it is held or when the order is already marked processed.\<close>

definition acquireProcessingLock :: "string \<Rightarrow> world \<Rightarrow> bool \<times> world" where
  "acquireProcessingLock oid w =
     (if oid \<in> processingLocks w \<or> oid \<in> processedOrders w then (False, w)
      else (True, w\<lparr>processingLocks := insert oid (processingLocks w)\<rparr>))"

text \<open>Modelled from the spec: \<^verbatim>\<open>releaseProcessingLock\<close> of \<^verbatim>\<open>backend/sessionManager.jsw\<close>,
  which is not among the sources.\<close>

definition releaseProcessingLock :: "string \<Rightarrow> world \<Rightarrow> world" where
  "releaseProcessingLock oid w = w\<lparr>processingLocks := processingLocks w - {oid}\<rparr>"

text \<open>Modelled from the spec: \<^verbatim>\<open>markOrderProcessed\<close> of \<^verbatim>\<open>backend/sessionManager.jsw\<close>, which
  is not among the sources. It sets the marker and releases the lock of the order (step 8 of
  the reconciler; the page's comment at the call reads ``Mark order as processed and release
  lock'').\<close>

definition markOrderProcessed :: "string \<Rightarrow> world \<Rightarrow> world" where
  "markOrderProcessed oid w =
     w\<lparr>processedOrders := insert oid (processedOrders w),
       processingLocks := processingLocks w - {oid}\<rparr>"

text \<open>Modelled from the spec: \<^verbatim>\<open>isDonationSynced\<close> and \<^verbatim>\<open>setDonationSynced\<close> of
  \<^verbatim>\<open>backend/sessionManager.jsw\<close>, which is not among the sources: the idempotency flag of the
  donation step. The page calls both without an argument.\<close>

definition isDonationSynced :: "world \<Rightarrow> bool" where
  "isDonationSynced w = donationSynced w"

definition setDonationSynced :: "world \<Rightarrow> world" where
  "setDonationSynced w = w\<lparr>donationSynced := True\<rparr>"

subsection \<open>Calls that leave the page\<close>

definition nextFault :: "world \<Rightarrow> bool \<times> world" where
  "nextFault w = (case faults w of [] \<Rightarrow> (False, w) | b # bs \<Rightarrow> (b, w\<lparr>faults := bs\<rparr>))"

text \<open>\<^verbatim>\<open>wixData.insert("AirtableSyncErrors", ...)\<close>.\<close>

definition insertSyncError :: "syncError \<Rightarrow> world \<Rightarrow> (exn + unit) \<times> world" where
  "insertSyncError e w =
     (case nextFault w of
        (True, w1) \<Rightarrow> (Inl WixDataError, w1)
      | (False, w1) \<Rightarrow> (Inr (), w1\<lparr>AirtableSyncErrors := AirtableSyncErrors w1 @ [e]\<rparr>))"

text \<open>\<^verbatim>\<open>wixData.query("PendingRegistrations").eq("userId", buyerId).eq("status", st)
  .ge("createdAt", since).descending("createdAt").find()\<close>.\<close>

definition queryPending :: "string \<Rightarrow> string \<Rightarrow> int \<Rightarrow> world \<Rightarrow> (exn + pendingReg list) \<times> world" where
  "queryPending buyer st since w =
     (case nextFault w of
        (True, w1) \<Rightarrow> (Inl WixDataError, w1)
      | (False, w1) \<Rightarrow>
          (Inr (sort_key (\<lambda>p. - createdAt p)
                 (filter (\<lambda>p. userId p = buyer \<and> status p = st \<and> since \<le> createdAt p)
                   (PendingRegistrations w1))), w1))"

text \<open>\<^verbatim>\<open>wixData.query("SeasonRegistration").eq("orderId", orderId).limit(1).find()\<close>.\<close>

definition querySeasonByOrder :: "string \<Rightarrow> world \<Rightarrow> (exn + registration list) \<times> world" where
  "querySeasonByOrder oid w =
     (case nextFault w of
        (True, w1) \<Rightarrow> (Inl WixDataError, w1)
      | (False, w1) \<Rightarrow> (Inr (take 1 (filter (\<lambda>s. orderId s = oid) (SeasonRegistration w1))), w1))"

text \<open>\<^verbatim>\<open>wixData.update("PendingRegistrations", { _id, status })\<close>, as the status transition of
  the record with this id.\<close>

definition setStatus :: "string \<Rightarrow> string \<Rightarrow> pendingReg list \<Rightarrow> pendingReg list" where
  "setStatus i st ps = map (\<lambda>p. if pid p = i then p\<lparr>status := st\<rparr> else p) ps"

definition updatePendingStatus :: "string \<Rightarrow> string \<Rightarrow> world \<Rightarrow> (exn + unit) \<times> world" where
  "updatePendingStatus i st w =
     (case nextFault w of
        (True, w1) \<Rightarrow> (Inl WixDataError, w1)
      | (False, w1) \<Rightarrow> (Inr (), w1\<lparr>PendingRegistrations := setStatus i st (PendingRegistrations w1)\<rparr>))"

text \<open>Modelled from the spec: \<^verbatim>\<open>saveDonation\<close> of \<^verbatim>\<open>backend/transactionManager.jsw\<close> is not
  among the sources. It makes one upsert on the external target and answers with
  \<^verbatim>\<open>{success, error?}\<close>; the page also expects that it may throw.\<close>

definition saveDonation :: "donationRecord \<Rightarrow> world \<Rightarrow> (exn + syncResult) \<times> world" where
  "saveDonation d w =
     (case donationOutcomes w of
        [] \<Rightarrow> (Inr \<lparr>success = True, errorText = None\<rparr>, w\<lparr>syncedDonations := syncedDonations w @ [d]\<rparr>)
      | DonationSaved # os \<Rightarrow>
          (Inr \<lparr>success = True, errorText = None\<rparr>,
           w\<lparr>syncedDonations := syncedDonations w @ [d], donationOutcomes := os\<rparr>)
      | DonationRejected msg # os \<Rightarrow>
          (Inr \<lparr>success = False, errorText = Some msg\<rparr>, w\<lparr>donationOutcomes := os\<rparr>)
      | DonationThrows # os \<Rightarrow> (Inl DonationSyncError, w\<lparr>donationOutcomes := os\<rparr>))"

text \<open>Modelled from the spec: \<^verbatim>\<open>handleNoRegistrationData\<close> of \<^verbatim>\<open>backend/errorHandler.jsw\<close> is
  not among the sources. It hands the order to the notification channel, fire and forget.\<close>

definition handleNoRegistrationData :: "order \<Rightarrow> world \<Rightarrow> (exn + unit) \<times> world" where
  "handleNoRegistrationData ord w = (Inr (), w\<lparr>notifications := notifications w @ [ord]\<rparr>)"

text \<open>Modelled from the spec: \<^verbatim>\<open>batchSaveRegistrations\<close> of \<^verbatim>\<open>backend/transactionManager.jsw\<close>
  is not among the sources. Each registration is saved on its own: a record of the same order
  and identity already in the authoritative store counts as a success without a write; a
  failed write to the authoritative store is logged and no synchronisation follows; a failed
  synchronisation after the write is a partial success with an audit record.\<close>

definition saveAuditRecord :: "string \<Rightarrow> string \<Rightarrow> registration \<Rightarrow> int \<Rightarrow> syncError" where
  "saveAuditRecord oid ty r t =
     \<lparr>se_orderId = Some oid, se_playerName = playerName r, se_parentId = None,
      se_division = division r, errorType = ty, errorMessage = ty, errorTimestamp = t\<rparr>"

text \<open>Modelled from the spec: the loop of \<^verbatim>\<open>batchSaveRegistrations\<close> over the registrations,
  one \<^verbatim>\<open>saveMatched\<close> each, independent of the others.\<close>

fun saveEach :: "registration list \<Rightarrow> string \<Rightarrow> batchResult \<Rightarrow> world \<Rightarrow> batchResult \<times> world" where
  "saveEach [] oid res w = (res, w)"
| "saveEach (r # rs) oid res w =
     (if list_ex (\<lambda>s. orderId s = oid \<and> playerId s = playerId r \<and> seasonName s = seasonName r
                       \<and> sport s = sport r) (SeasonRegistration w)
      then saveEach rs oid (res\<lparr>successful := successful res + 1\<rparr>) w
      else
        (case nextFault w of
           (True, w1) \<Rightarrow>
             saveEach rs oid (res\<lparr>failed := failed res + 1\<rparr>)
               (w1\<lparr>AirtableSyncErrors :=
                     AirtableSyncErrors w1 @ [saveAuditRecord oid ''CMS_INSERT_FAILED'' r (clock w1)]\<rparr>)
         | (False, w1) \<Rightarrow>
             (case nextFault (w1\<lparr>SeasonRegistration := SeasonRegistration w1 @ [r]\<rparr>) of
                (True, w2) \<Rightarrow>
                  saveEach rs oid (res\<lparr>partial := partial res + 1\<rparr>)
                    (w2\<lparr>AirtableSyncErrors :=
                          AirtableSyncErrors w2 @ [saveAuditRecord oid ''AIRTABLE_SYNC_FAILED'' r (clock w2)]\<rparr>)
              | (False, w2) \<Rightarrow>
                  saveEach rs oid (res\<lparr>successful := successful res + 1\<rparr>)
                    (w2\<lparr>syncedRegistrations := syncedRegistrations w2 @ [r]\<rparr>))))"

text \<open>Modelled from the spec: \<^verbatim>\<open>batchSaveRegistrations\<close>, answering with the counts
  \<^verbatim>\<open>{total, successful, partial, failed}\<close>.\<close>

definition batchSaveRegistrations ::
  "registration list \<Rightarrow> string \<Rightarrow> world \<Rightarrow> (exn + batchResult) \<times> world"
where
  "batchSaveRegistrations rs oid w =
     (case saveEach rs oid \<lparr>total = length rs, successful = 0, partial = 0, failed = 0\<rparr> w of
        (res, w1) \<Rightarrow> (Inr res, w1))"


section \<open>The order page\<close>

subsection \<open>Donations\<close>

definition DONATION_PRODUCTS :: "(string \<times> int) list" where
  "DONATION_PRODUCTS =
     [(''c8faba52-947c-4c0e-ae02-58406cfe5202'', 10),
      (''80e47dc3-91ee-4b47-ad73-8c17dff81989'', 20),
      (''ff86a5c7-c653-4f0e-b8b0-3b0fa3b80143'', 50),
      (''9e1f3628-67c3-467e-bb99-91611426f0dc'', 100)]"

definition donationAmountOf :: "string option \<Rightarrow> int option" where
  "donationAmountOf p = (case p of None \<Rightarrow> None | Some k \<Rightarrow> map_of DONATION_PRODUCTS k)"

definition lineItemsOf :: "order \<Rightarrow> lineItem list" where
  "lineItemsOf ord = (case lineItems ord of None \<Rightarrow> [] | Some ls \<Rightarrow> ls)"

definition donorNameOf :: "order \<Rightarrow> string" where
  "donorNameOf ord = trim (orEmpty (billing_firstName ord) @ '' '' @ orEmpty (billing_lastName ord))"

definition donationRecordOf :: "order \<Rightarrow> int \<Rightarrow> donationRecord" where
  "donationRecordOf ord amount =
     \<lparr>donorName = donorNameOf ord, donationAmount = amount, donorEmail = orEmpty (billing_email ord)\<rparr>"

definition donationAudit :: "order \<Rightarrow> string \<Rightarrow> string \<Rightarrow> int \<Rightarrow> syncError" where
  "donationAudit ord ty msg t =
     \<lparr>se_orderId = order_id ord, se_playerName = donorNameOf ord, se_parentId = None,
      se_division = ''DONATION'', errorType = ty, errorMessage = msg, errorTimestamp = t\<rparr>"

text \<open>The body of the \<^verbatim>\<open>try\<close> block for one donation line: the sync call, the audit record of
  a refused sync, then \<^verbatim>\<open>setDonationSynced()\<close>. An exception of the sync call or of the audit
  insert leaves the block before the flag is set.\<close>

definition donationAttempt :: "order \<Rightarrow> int \<Rightarrow> world \<Rightarrow> (exn + unit) \<times> world" where
  "donationAttempt ord amount w =
     (case saveDonation (donationRecordOf ord amount) w of
        (Inl e, w1) \<Rightarrow> (Inl e, w1)
      | (Inr res, w1) \<Rightarrow>
          (if success res then (Inr (), setDonationSynced w1)
           else
             (case insertSyncError
                     (donationAudit ord ''DONATION_SYNC_FAILED''
                        (case errorText res of None \<Rightarrow> ''Donation sync failed''
                         | Some m \<Rightarrow> if m = [] then ''Donation sync failed'' else m)
                        (clock w1)) w1 of
                (Inl e, w2) \<Rightarrow> (Inl e, w2)
              | (Inr u, w2) \<Rightarrow> (Inr (), setDonationSynced w2))))"

text \<open>The loop over the line items; the second \<^verbatim>\<open>case\<close> is the \<^verbatim>\<open>catch\<close> block, whose own
  audit insert is not guarded.\<close>

fun processDonationItems :: "order \<Rightarrow> lineItem list \<Rightarrow> world \<Rightarrow> (exn + unit) \<times> world" where
  "processDonationItems ord [] w = (Inr (), w)"
| "processDonationItems ord (l # ls) w =
     (case donationAmountOf (productId l) of
        None \<Rightarrow> processDonationItems ord ls w
      | Some amount \<Rightarrow>
          (case donationAttempt ord amount w of
             (Inr u, w1) \<Rightarrow> processDonationItems ord ls w1
           | (Inl e, w1) \<Rightarrow>
               (case insertSyncError
                       (donationAudit ord ''DONATION_SYNC_EXCEPTION'' ''exception'' (clock w1)) w1 of
                  (Inl e2, w2) \<Rightarrow> (Inl e2, w2)
                | (Inr u, w2) \<Rightarrow> processDonationItems ord ls w2)))"

definition processDonations :: "order \<Rightarrow> world \<Rightarrow> (exn + unit) \<times> world" where
  "processDonations ord w =
     (if isDonationSynced w then (Inr (), w) else processDonationItems ord (lineItemsOf ord) w)"

subsection \<open>Loading the registration queue\<close>

definition twoHoursMs :: int where
  "twoHoursMs = 2 * 60 * 60 * 1000"

definition buyerIdOf :: "order \<Rightarrow> string option" where
  "buyerIdOf ord = jsOr (buyerInfo_id ord) (enteredBy_id ord)"

text \<open>The loop over the query result. Each round asks the authoritative store for a record
  of the order being processed; the first round that finds none parses the candidate, marks
  it as processing and returns.\<close>

fun scanPending ::
  "string \<Rightarrow> pendingReg list \<Rightarrow> world \<Rightarrow> (exn + (reg list \<times> source) option) \<times> world"
where
  "scanPending oid [] w = (Inr None, w)"
| "scanPending oid (p # ps) w =
     (case querySeasonByOrder oid w of
        (Inl e, w1) \<Rightarrow> (Inl e, w1)
      | (Inr items, w1) \<Rightarrow>
          (if length items = 0 then
             (case parseQueue (registrations p) of
                None \<Rightarrow> (Inl SyntaxError, w1)
              | Some q \<Rightarrow>
                  (case updatePendingStatus (pid p) ''processing'' w1 of
                     (Inl e, w2) \<Rightarrow> (Inl e, w2)
                   | (Inr u, w2) \<Rightarrow> (Inr (Some (q, SrcCms)), w2)))
           else scanPending oid ps w1))"

text \<open>The \<^verbatim>\<open>try\<close> block of \<^verbatim>\<open>loadRegistrationQueue\<close>; \<open>Inr None\<close> when it falls through to
  the final \<^verbatim>\<open>return\<close>. The order id is a text here: the page returns before this point
  when the order has none.\<close>

definition tryRecovery ::
  "order \<Rightarrow> string \<Rightarrow> world \<Rightarrow> (exn + (reg list \<times> source) option) \<times> world"
where
  "tryRecovery ord oid w =
     (case buyerIdOf ord of
        None \<Rightarrow> (Inr (Some ([], SrcNone)), w)
      | Some buyer \<Rightarrow>
          (if buyer = [] then (Inr (Some ([], SrcNone)), w)
           else
             (case queryPending buyer ''pending'' (clock w - twoHoursMs) w of
                (Inl e, w1) \<Rightarrow> (Inl e, w1)
              | (Inr items, w1) \<Rightarrow> scanPending oid items w1)))"

definition retrievalAudit :: "order \<Rightarrow> string \<Rightarrow> int \<Rightarrow> syncError" where
  "retrievalAudit ord oid t =
     \<lparr>se_orderId = Some oid,
      se_playerName = toText (billing_firstName ord) @ '' '' @ toText (billing_lastName ord),
      se_parentId = (if truthy (buyerInfo_id ord) then buyerInfo_id ord else None),
      se_division = ''UNKNOWN'', errorType = ''CMS_RETRIEVAL_FAILED'',
      errorMessage = ''Failed to retrieve pending registrations from CMS'', errorTimestamp = t\<rparr>"

definition loadRegistrationQueue ::
  "order \<Rightarrow> string \<Rightarrow> world \<Rightarrow> (exn + reg list \<times> source) \<times> world"
where
  "loadRegistrationQueue ord oid w =
     (if length (getRegQueue w) > 0 then (Inr (getRegQueue w, SrcSession), w)
      else
        (case tryRecovery ord oid w of
           (Inr (Some r), w1) \<Rightarrow> (Inr r, w1)
         | (Inr None, w1) \<Rightarrow> (Inr ([], SrcNone), w1)
         | (Inl e, w1) \<Rightarrow>
             (case insertSyncError (retrievalAudit ord oid (clock w1)) w1 of
                (Inl e2, w2) \<Rightarrow> (Inl e2, w2)
              | (Inr u, w2) \<Rightarrow> (Inr ([], SrcNone), w2))))"

subsection \<open>Cleanup\<close>

text \<open>The guarded part of \<^verbatim>\<open>cleanupSession\<close>: its \<^verbatim>\<open>catch\<close> block only logs, so a failed query
  or update leaves the world as it is at the failure.\<close>

definition markCompleted :: "order \<Rightarrow> world \<Rightarrow> world" where
  "markCompleted ord w =
     (case buyerIdOf ord of
        None \<Rightarrow> w
      | Some buyer \<Rightarrow>
          (if buyer = [] then w
           else
             (case queryPending buyer ''processing'' (clock w - twoHoursMs) w of
                (Inl e, w1) \<Rightarrow> w1
              | (Inr items, w1) \<Rightarrow>
                  (case take 1 items of
                     [] \<Rightarrow> w1
                   | p # ps \<Rightarrow> snd (updatePendingStatus (pid p) ''completed'' w1)))))"

definition cleanupSession ::
  "reg list \<Rightarrow> (reg \<times> lineItem) list \<Rightarrow> source \<Rightarrow> order \<Rightarrow> world \<Rightarrow> world"
where
  "cleanupSession regQueue matched dataSource ord w =
     (let remaining = filter (\<lambda>r. \<not> list_ex (\<lambda>m. sameIdentity (fst m) r) matched) regQueue;
          w1 = setRegQueue remaining w
      in if dataSource = SrcCms then markCompleted ord w1 else w1)"

subsection \<open>The page's \<^verbatim>\<open>onReady\<close> handler\<close>

text \<open>The value names the \<^verbatim>\<open>return\<close> the run leaves by; \<open>Failed\<close> is the inner \<^verbatim>\<open>catch\<close> block,
  whose rethrown error the outer \<^verbatim>\<open>catch\<close> block logs.\<close>

datatype exit =
  MissingOrderId | AlreadyProcessed | LockNotAcquired | NoRegistrationData | NoMatch
  | Complete | Failed exn

text \<open>The inner \<^verbatim>\<open>try\<close> block, entered with the lock held.\<close>

definition processOrder :: "order \<Rightarrow> string \<Rightarrow> world \<Rightarrow> (exn + exit) \<times> world" where
  "processOrder ord oid w =
     (case processDonations ord w of
        (Inl e, w1) \<Rightarrow> (Inl e, w1)
      | (Inr u, w1) \<Rightarrow>
          (case loadRegistrationQueue ord oid w1 of
             (Inl e, w2) \<Rightarrow> (Inl e, w2)
           | (Inr (regQueue, dataSource), w2) \<Rightarrow>
               (if length regQueue = 0 then
                  (case handleNoRegistrationData ord w2 of
                     (Inl e, w3) \<Rightarrow> (Inl e, w3)
                   | (Inr u, w3) \<Rightarrow> (Inr NoRegistrationData, w3))
                else
                  (case matchRegistrationsToLineItems regQueue (lineItemsOf ord) of
                     (matched, unmatched) \<Rightarrow>
                       (if length matched = 0 then (Inr NoMatch, w2)
                        else
                          (case batchSaveRegistrations
                                  (registrationsToSave oid (clock w2) matched) oid w2 of
                             (Inl e, w3) \<Rightarrow> (Inl e, w3)
                           | (Inr res, w3) \<Rightarrow>
                               (Inr Complete,
                                markOrderProcessed oid
                                  (cleanupSession regQueue matched dataSource ord w3))))))))"

definition onReady :: "order \<Rightarrow> world \<Rightarrow> exit \<times> world" where
  "onReady ord w =
     (case order_id ord of
        None \<Rightarrow> (MissingOrderId, w)
      | Some oid \<Rightarrow>
          (if oid = [] then (MissingOrderId, w)
           else if isOrderProcessed oid w then (AlreadyProcessed, w)
           else
             (case acquireProcessingLock oid w of
                (False, w1) \<Rightarrow> (LockNotAcquired, w1)
              | (True, w1) \<Rightarrow>
                  (case processOrder ord oid w1 of
                     (Inr x, w2) \<Rightarrow> (x, w2)
                   | (Inl e, w2) \<Rightarrow> (Failed e, releaseProcessingLock oid w2)))))"


section \<open>The registration page: adding to the queue\<close>

text \<open>
  \<^verbatim>\<open>handleRegisterClick\<close> reads the form, the division status, the content store and the fee
  service. What it reads is an input of the model: \<open>collected\<close> is the sanitised registration,
  \<open>cmsAnswer\<close> the outcome of the duplicate query on the content store (an exception of that
  query is caught and logged by \<^verbatim>\<open>checkForDuplicates\<close>). The backup copy the handler writes
  to the content store does not touch the queue and is left out.
\<close>

datatype cmsDuplicate = CmsFound | CmsNotFound | CmsQueryFailed

record click =
  formValid :: bool
  divisionClosed :: bool
  collected :: reg
  validationPasses :: bool
  cmsAnswer :: cmsDuplicate
  fetchedFee :: jsnum

datatype clickResult =
  FormIncomplete | DivisionClosed | ValidationFailed | DuplicateInCms | DuplicateInQueue | Queued

text \<open>\<^verbatim>\<open>checkForDuplicates\<close>: the content store first, then the session queue.\<close>

definition checkForDuplicates :: "cmsDuplicate \<Rightarrow> reg \<Rightarrow> world \<Rightarrow> clickResult option" where
  "checkForDuplicates ans x w =
     (if ans = CmsFound then Some DuplicateInCms
      else if isDuplicateInQueue x w then Some DuplicateInQueue
      else None)"

definition handleRegisterClick :: "click \<Rightarrow> world \<Rightarrow> clickResult \<times> world" where
  "handleRegisterClick c w =
     (if \<not> formValid c then (FormIncomplete, w)
      else if divisionClosed c then (DivisionClosed, w)
      else if \<not> validationPasses c then (ValidationFailed, w)
      else
        (case checkForDuplicates (cmsAnswer c) (collected c) w of
           Some d \<Rightarrow> (d, w)
         | None \<Rightarrow> (Queued, addToRegQueue ((collected c)\<lparr>fee := fetchedFee c\<rparr>) w)))"

section \<open>The circuit breaker\<close>

text \<open>Modelled from the spec: \<^verbatim>\<open>backend/retryUtils.jsw\<close> is not among the sources; the guide
  only calls \<^verbatim>\<open>getCircuitBreaker('airtable')\<close> and \<^verbatim>\<open>execute\<close>. In CLOSED, operations pass
  through and each failure increments the failure count; reaching the threshold 5 opens the
  breaker and records the next attempt time, 60 seconds ahead. While OPEN, a call fails fast
  without invoking the operation. Once the next attempt time has elapsed the breaker moves to
  HALF-OPEN and lets the call through as the trial: its success closes the breaker and resets
  the counters, its failure reopens the breaker with a new cooldown. The operation is given
  by its outcome if invoked; the second component of the answer tells whether it was
  invoked.\<close>

datatype breakerState = CLOSED | OPEN | HALF_OPEN

datatype callResult = Succeeded | OperationFailed | CircuitOpen

record circuitBreaker =
  cbState :: breakerState
  failureCount :: nat
  successCount :: nat
  nextAttemptTime :: "int option"

definition failureThreshold :: nat where
  "failureThreshold = 5"

definition cooldownMs :: int where
  "cooldownMs = 60000"

text \<open>Modelled from the spec: breakers are created lazily, one per dependency name, CLOSED
  and with both counters at 0.\<close>

definition newBreaker :: circuitBreaker where
  "newBreaker = \<lparr>cbState = CLOSED, failureCount = 0, successCount = 0, nextAttemptTime = None\<rparr>"

definition getCircuitBreaker :: "string \<Rightarrow> (string \<rightharpoonup> circuitBreaker) \<Rightarrow> circuitBreaker" where
  "getCircuitBreaker n registry = (case registry n of None \<Rightarrow> newBreaker | Some b \<Rightarrow> b)"

text \<open>Modelled from the spec: the next attempt time has not elapsed yet.\<close>

definition stillCooling :: "int \<Rightarrow> circuitBreaker \<Rightarrow> bool" where
  "stillCooling now b = (case nextAttemptTime b of None \<Rightarrow> False | Some t \<Rightarrow> now < t)"

text \<open>Modelled from the spec: a success of the trial closes the breaker and resets the
  counters; in CLOSED a success passes through.\<close>

definition onSuccess :: "circuitBreaker \<Rightarrow> circuitBreaker" where
  "onSuccess b =
     (if cbState b = HALF_OPEN then b\<lparr>cbState := CLOSED, failureCount := 0, successCount := 0\<rparr>
      else b)"

text \<open>Modelled from the spec: a failure of the trial reopens the breaker with a new cooldown;
  in CLOSED a failure increments the failure count, and reaching the threshold opens the
  breaker.\<close>

definition onFailure :: "int \<Rightarrow> circuitBreaker \<Rightarrow> circuitBreaker" where
  "onFailure now b =
     (if cbState b = HALF_OPEN then b\<lparr>cbState := OPEN, nextAttemptTime := Some (now + cooldownMs)\<rparr>
      else if failureCount b + 1 \<ge> failureThreshold then
        b\<lparr>cbState := OPEN, failureCount := failureCount b + 1,
          nextAttemptTime := Some (now + cooldownMs)\<rparr>
      else b\<lparr>failureCount := failureCount b + 1\<rparr>)"

text \<open>Modelled from the spec: \<^verbatim>\<open>CircuitBreaker.execute\<close>.\<close>

definition execute :: "int \<Rightarrow> bool \<Rightarrow> circuitBreaker \<Rightarrow> (callResult \<times> bool) \<times> circuitBreaker" where
  "execute now succeeds b =
     (if cbState b = OPEN \<and> stillCooling now b then ((CircuitOpen, False), b)
      else
        (let trial = (if cbState b = OPEN then b\<lparr>cbState := HALF_OPEN\<rparr> else b)
         in if succeeds then ((Succeeded, True), onSuccess trial)
            else ((OperationFailed, True), onFailure now trial)))"

text \<open>A run of calls whose operation fails each time, at the given times.\<close>

fun failing :: "int list \<Rightarrow> circuitBreaker \<Rightarrow> circuitBreaker" where
  "failing [] b = b"
| "failing (t # ts) b = failing ts (snd (execute t False b))"

section \<open>Sample inputs\<close>

definition sampleMajors :: reg where
  "sampleMajors =
     \<lparr>playerId = ''player-1'', playerName = ''Test Player'', seasonName = ''2026.1'',
      sport = ''Baseball'', division = ''Majors'', fee = Finite 150\<rparr>"

definition sampleSibling :: reg where
  "sampleSibling =
     \<lparr>playerId = ''player-2'', playerName = ''Second Player'', seasonName = ''2026.1'',
      sport = ''Baseball'', division = ''Majors'', fee = Finite 150\<rparr>"

definition sampleLine :: "int \<Rightarrow> lineItem" where
  "sampleLine q =
     \<lparr>productId = Some ''5d799042-713c-408f-b744-2be1effcc8d5'',
      name = Some ''Baseball Majors - 2026.1'', quantity = Some q, price = Some 150,
      totalPrice = None\<rparr>"

definition sampleSoftball :: lineItem where
  "sampleSoftball =
     \<lparr>productId = Some ''9275d7d7-2810-4ef5-ba64-35a0cd109797'',
      name = Some ''Softball Minors - 2026.1'', quantity = Some 1, price = Some 120,
      totalPrice = None\<rparr>"

definition sampleDonation :: lineItem where
  "sampleDonation =
     \<lparr>productId = Some ''c8faba52-947c-4c0e-ae02-58406cfe5202'', name = Some ''Donation'',
      quantity = Some 1, price = Some 10, totalPrice = None\<rparr>"

definition sampleOrder :: "lineItem list \<Rightarrow> order" where
  "sampleOrder ls =
     \<lparr>order_id = Some ''order-1'', buyerInfo_id = Some ''buyer-1'', enteredBy_id = None,
      billing_firstName = Some ''Pat'', billing_lastName = Some ''Doe'',
      billing_email = Some ''pat@example.com'', lineItems = Some ls\<rparr>"

definition samplePending :: "string \<Rightarrow> int \<Rightarrow> serialized \<Rightarrow> pendingReg" where
  "samplePending i t x =
     \<lparr>pid = i, userId = ''buyer-1'', status = ''pending'', createdAt = t, registrations = x\<rparr>"

definition sampleWorld :: "serialized \<Rightarrow> pendingReg list \<Rightarrow> world" where
  "sampleWorld q ps =
     \<lparr>clock = 20000000, sessionRegQueue = q, processingLocks = {}, processedOrders = {},
      donationSynced = False, PendingRegistrations = ps, SeasonRegistration = [],
      AirtableSyncErrors = [], syncedDonations = [], syncedRegistrations = [],
      notifications = [], donationOutcomes = [], faults = []\<rparr>"


text \<open>A sequence of clicks on the register button.\<close>

fun clicks :: "click list \<Rightarrow> world \<Rightarrow> world" where
  "clicks [] w = w"
| "clicks (c # cs) w = clicks cs (snd (handleRegisterClick c w))"

text \<open>The parts of the world that neither the donation step nor the loading of the queue
  touches.\<close>

definition kept :: "world \<Rightarrow> world \<Rightarrow> bool" where
  "kept w w' =
     (clock w' = clock w \<and> sessionRegQueue w' = sessionRegQueue w
      \<and> processingLocks w' = processingLocks w \<and> processedOrders w' = processedOrders w
      \<and> SeasonRegistration w' = SeasonRegistration w
      \<and> syncedRegistrations w' = syncedRegistrations w \<and> notifications w' = notifications w)"

text \<open>A click for the sample registration.\<close>

definition sampleClick :: click where
  "sampleClick = \<lparr>formValid = True, divisionClosed = False, collected = sampleMajors,
     validationPasses = True, cmsAnswer = CmsNotFound, fetchedFee = Finite 150\<rparr>"



text \<open>A world whose only backup record is three hours old.\<close>

definition staleWorld :: world where
  "staleWorld =
     sampleWorld Absent [samplePending ''old'' (20000000 - 3 * 60 * 60 * 1000) (Json [sampleMajors])]"


text \<open>The first run of a sample order.\<close>

definition firstRun :: "exit \<times> world" where
  "firstRun = onReady (sampleOrder [sampleLine 1]) (sampleWorld (Json [sampleMajors]) [])"

section \<open>Properties of the matching\<close>

lemma starts_with_prefix: "starts_with s t = prefix t s"
  by (induction s t rule: starts_with.induct) auto

lemma str_includes_sublist: "str_includes s t = sublist t s"
  by (induction s) (auto simp: starts_with_prefix sublist_Cons_right)

lemma find_map_comp: "List.find P (map f xs) = map_option f (List.find (\<lambda>x. P (f x)) xs)"
  by (induction xs) auto

lemma findIndex_find: "findIndex P xs = List.find (\<lambda>i. P (xs ! i)) [0..<length xs]"
proof (induction xs)
  case Nil
  show ?case by simp
next
  case (Cons x xs)
  have upt: "[0..<length (x # xs)] = 0 # map Suc [0..<length xs]"
    by (simp add: upt_conv_Cons map_Suc_upt del: upt_Suc)
  show ?case
    unfolding upt using Cons by (simp add: find_map_comp)
qed

lemma findIndex_first_unused:
  "findIndex (slotAccepts r) slots = spec_first_unused (map li slots) (usedSet slots) r"
  unfolding findIndex_find spec_first_unused_def
  by (rule find_cong) (auto simp: slotAccepts_def spec_contains_def usedSet_def str_includes_sublist split: option.splits)

lemma first_unused_bound: "spec_first_unused slots U r = Some i \<Longrightarrow> i < length slots \<and> i \<notin> U \<and> spec_contains (slots ! i) r"
  unfolding spec_first_unused_def by (auto simp: find_Some_iff)

lemma usedSet_update:
  "i < length slots \<Longrightarrow> usedSet (slots[i := (slots ! i)\<lparr>used := True\<rparr>]) = insert i (usedSet slots)"
  by (auto simp: usedSet_def nth_list_update)

lemma map_li_update:
  "map li (slots[i := (slots ! i)\<lparr>used := True\<rparr>]) = map li slots"
proof (rule nth_equalityI)
  show "length (map li (slots[i := (slots ! i)\<lparr>used := True\<rparr>])) = length (map li slots)"
    by simp
next
  fix k
  assume "k < length (map li (slots[i := (slots ! i)\<lparr>used := True\<rparr>]))"
  then have "k < length slots" by simp
  then show "map li (slots[i := (slots ! i)\<lparr>used := True\<rparr>]) ! k = map li slots ! k"
    by (cases "k = i") (simp_all add: nth_list_update)
qed

lemma matchLoop_greedy:
  "matchLoop rs slots M unm =
     (M @ map (\<lambda>p. (fst p, map li slots ! snd p)) (fst (spec_greedy (map li slots) (usedSet slots) rs)),
      unm @ snd (spec_greedy (map li slots) (usedSet slots) rs))"
proof (induction rs arbitrary: slots M unm)
  case Nil
  show ?case by simp
next
  case (Cons r rs)
  show ?case
  proof (cases "findIndex (slotAccepts r) slots")
    case None
    then have "spec_first_unused (map li slots) (usedSet slots) r = None"
      by (simp add: findIndex_first_unused)
    with None show ?thesis by (simp add: Cons.IH)
  next
    case (Some idx)
    then have fu: "spec_first_unused (map li slots) (usedSet slots) r = Some idx"
      by (simp add: findIndex_first_unused)
    then have lt: "idx < length slots" using first_unused_bound[OF fu] by simp
    show ?thesis using Some fu lt
      by (simp add: Cons.IH map_li_update usedSet_update)
  qed
qed

lemma map_li_buildSlots: "map li (buildSlots ls) = spec_expand code_units ls"
  by (induction ls) (auto simp: spec_expand_def code_units_def)

lemma used_buildSlots: "s \<in> set (buildSlots ls) \<Longrightarrow> \<not> used s"
  by (induction ls) auto

lemma usedSet_buildSlots: "usedSet (buildSlots ls) = {}"
  by (auto simp: usedSet_def dest: used_buildSlots[OF nth_mem])

lemma match_refines: "matchRegistrationsToLineItems q ls = spec_match code_units q ls"
  unfolding matchRegistrationsToLineItems_def spec_match_def
  by (simp add: matchLoop_greedy map_li_buildSlots usedSet_buildSlots)

lemma greedy_bound:
  "p \<in> set (fst (spec_greedy slots U rs)) \<Longrightarrow> snd p < length slots \<and> snd p \<notin> U \<and> spec_contains (slots ! snd p) (fst p)"
proof (induction rs arbitrary: U)
  case Nil
  then show ?case by simp
next
  case (Cons r rs)
  show ?case
  proof (cases "spec_first_unused slots U r")
    case None
    with Cons show ?thesis by simp
  next
    case (Some i)
    from Cons.prems Some have "p = (r, i) \<or> p \<in> set (fst (spec_greedy slots (insert i U) rs))"
      by simp
    then show ?thesis
    proof
      assume "p = (r, i)"
      then show ?thesis using first_unused_bound[OF Some] by simp
    next
      assume "p \<in> set (fst (spec_greedy slots (insert i U) rs))"
      from Cons.IH[OF this] show ?thesis by simp
    qed
  qed
qed


lemma greedy_partition:
  "mset (map fst (fst (spec_greedy slots U rs))) + mset (snd (spec_greedy slots U rs)) = mset rs"
  by (induction rs arbitrary: U) (auto split: option.splits)




section \<open>Properties of the recorded fee\<close>

lemma set_spec_expand: "set (spec_expand u ls) \<subseteq> set ls"
  by (auto simp: spec_expand_def)

lemma matched_line_in_order:
  assumes "(r, l) \<in> set (fst (matchRegistrationsToLineItems q ls))"
  shows "l \<in> set ls \<and> r \<in> set q \<and> spec_contains l r"
proof -
  from assms obtain p where p: "p \<in> set (fst (spec_greedy (spec_expand code_units ls) {} q))"
    and r: "r = fst p" and l: "l = spec_expand code_units ls ! snd p"
    by (auto simp: match_refines spec_match_def)
  from greedy_bound[OF p] have b: "snd p < length (spec_expand code_units ls)"
    and c: "spec_contains (spec_expand code_units ls ! snd p) (fst p)" by simp_all
  from b have "l \<in> set ls" using l set_spec_expand nth_mem by blast
  moreover have "r \<in> set q"
  proof -
    have "fst p \<in># mset (map fst (fst (spec_greedy (spec_expand code_units ls) {} q)))"
      using p by auto
    then have "fst p \<in># mset q"
      using greedy_partition[of "spec_expand code_units ls" "{}" q] by (metis union_iff)
    then show ?thesis by (simp add: r)
  qed
  ultimately show ?thesis using c l r by simp
qed

text \<open>The doubles of the model at 50.2 and at 50.2 * 3: the product is not 150.6.\<close>

lemma double_samples:
  "toDouble (251 / 5) = Finite (3532510957718733 / 70368744177664)
   \<and> jsTimes (toDouble (251 / 5)) (toDouble 3) = Finite (1324691609144525 / 8796093022208)
   \<and> toDouble (753 / 5) = Finite (5298766436578099 / 35184372088832)
   \<and> jsTimes (toDouble 150) (toDouble 2) = Finite 300"
  by code_simp

text \<open>Every registration to save carries the paid amount of the line item it is bound to,
  which is a line item of the order, and keeps the intent's player and division.\<close>

lemma saved_fee_of_matched:
  assumes "matchRegistrationsToLineItems regQueue items = (matched, unmatched)"
    and "i < length matched"
    and "matched ! i = (r, l)"
  shows "l \<in> set items
     \<and> length (registrationsToSave oid now matched) = length matched
     \<and> fee (registrationsToSave oid now matched ! i)
         = (case totalPrice l of
              Some t \<Rightarrow> toDouble t
            | None \<Rightarrow> jsTimes (priceOr0 l) (toDouble (of_int (quantityOr1 l))))
     \<and> playerId (registrationsToSave oid now matched ! i) = playerId r
     \<and> division (registrationsToSave oid now matched ! i) = division r
     \<and> orderId (registrationsToSave oid now matched ! i) = oid
     \<and> paid (registrationsToSave oid now matched ! i)"
proof -
  have "(r, l) \<in> set (fst (matchRegistrationsToLineItems regQueue items))"
    using assms by (metis fst_conv nth_mem)
  then have mem: "l \<in> set items" using matched_line_in_order by blast
  have sv: "registrationsToSave oid now matched ! i = toSave oid now (r, l)"
    using assms(2,3) by (simp add: registrationsToSave_def)
  have len: "length (registrationsToSave oid now matched) = length matched"
    by (simp add: registrationsToSave_def)
  from mem len show ?thesis
    by (simp add: sv toSave_def paidAmount_def)
qed

text \<open>
  Claim C1 fails on the page. Two intents of division Majors bound to the two units of one
  line of quantity 2 and unit price 150 are each saved with the paid amount 300, the total
  of the line, where the per-unit price is 150. With quantity 1 the paid amount is the unit
  price 150, as in the scenario of the specification.
\<close>

theorem line_total_recorded_per_registration:
  "fst (matchRegistrationsToLineItems [sampleMajors, sampleSibling] [sampleLine 2])
     = [(sampleMajors, sampleLine 2), (sampleSibling, sampleLine 2)]
   \<and> map fee (registrationsToSave ''order-1'' 0
         (fst (matchRegistrationsToLineItems [sampleMajors, sampleSibling] [sampleLine 2])))
       = [Finite 300, Finite 300]
   \<and> spec_perUnitPrice (sampleLine 2) = 150
   \<and> price (sampleLine 2) = Some 150
   \<and> map fee (registrationsToSave ''order-1'' 0
         (fst (matchRegistrationsToLineItems [sampleMajors] [sampleLine 1])))
       = [Finite 150]
   \<and> snd (matchRegistrationsToLineItems [sampleMajors] [sampleLine 1]) = []"
  by code_simp

section \<open>Properties of the circuit breaker\<close>

lemma failing_five:
  assumes "cbState b = CLOSED" "failureCount b = 0"
  shows "failing [t1, t2, t3, t4, t5] b
           = b\<lparr>cbState := OPEN, failureCount := 5, nextAttemptTime := Some (t5 + 60000)\<rparr>"
    and "cbState (failing [t1, t2, t3, t4] b) = CLOSED"
  using assms
  by (simp_all add: execute_def onFailure_def failureThreshold_def cooldownMs_def)

lemma execute_open_cooling:
  assumes "cbState c = OPEN" "nextAttemptTime c = Some t" "now < t"
  shows "execute now ok c = ((CircuitOpen, False), c)"
  using assms by (simp add: execute_def stillCooling_def)

lemma execute_open_elapsed:
  assumes "cbState c = OPEN" "nextAttemptTime c = Some t" "t \<le> now"
  shows "execute now True c = ((Succeeded, True), c\<lparr>cbState := CLOSED, failureCount := 0, successCount := 0\<rparr>)"
    and "execute now False c = ((OperationFailed, True), c\<lparr>cbState := OPEN, nextAttemptTime := Some (now + 60000)\<rparr>)"
  using assms by (simp_all add: execute_def stillCooling_def onSuccess_def onFailure_def cooldownMs_def)

lemma execute_never_half_open: "cbState (snd (execute now ok c)) \<noteq> HALF_OPEN"
  by (cases "cbState c") (auto simp: execute_def onSuccess_def onFailure_def Let_def)

text \<open>
  Claim C9. For every breaker: from CLOSED with no failure counted, four failures leave it
  CLOSED and the fifth opens it with the next attempt time 60 seconds after that failure.
  While OPEN and before the next attempt time, a call answers \<open>CircuitOpen\<close> without invoking the
  operation and leaves the breaker as it is. Once the next attempt time has elapsed the call is
  let through as the trial: its success closes the breaker with both counters reset, its
  failure reopens it with the next attempt time 60 seconds after the trial. No call leaves
  the breaker HALF-OPEN, so each elapsed cooldown admits exactly one trial. A breaker that is
  not in the registry yet is a fresh CLOSED one.
\<close>

theorem circuit_breaker_transitions:
  "(cbState b = CLOSED \<and> failureCount b = 0 \<longrightarrow>
       cbState (failing [t1, t2, t3, t4] b) = CLOSED
     \<and> failing [t1, t2, t3, t4, t5] b
         = b\<lparr>cbState := OPEN, failureCount := 5, nextAttemptTime := Some (t5 + 60000)\<rparr>)
   \<and> (cbState c = OPEN \<and> nextAttemptTime c = Some t \<and> now < t \<longrightarrow>
         execute now ok c = ((CircuitOpen, False), c))
   \<and> (cbState c = OPEN \<and> nextAttemptTime c = Some t \<and> t \<le> later \<longrightarrow>
         execute later True c
           = ((Succeeded, True), c\<lparr>cbState := CLOSED, failureCount := 0, successCount := 0\<rparr>)
       \<and> execute later False c
           = ((OperationFailed, True), c\<lparr>cbState := OPEN, nextAttemptTime := Some (later + 60000)\<rparr>))
   \<and> cbState (snd (execute now ok c)) \<noteq> HALF_OPEN
   \<and> getCircuitBreaker n Map.empty = newBreaker"
  using failing_five[of b] execute_open_cooling[of c t now ok] execute_open_elapsed[of c t later]
    execute_never_half_open[of now ok c]
  by (simp add: getCircuitBreaker_def)

text \<open>The breaker ``external-sync'': five failures, the last at 5000, open it until 65000; a
  call at 5001 fails fast; the trial at 65000 closes it on success and reopens it until
  125000 on failure.\<close>

theorem circuit_breaker_transitions_witness:
  "failing [1000, 2000, 3000, 4000, 5000] (getCircuitBreaker ''external-sync'' Map.empty)
     = \<lparr>cbState = OPEN, failureCount = 5, successCount = 0, nextAttemptTime = Some 65000\<rparr>
   \<and> execute 5001 True \<lparr>cbState = OPEN, failureCount = 5, successCount = 0, nextAttemptTime = Some 65000\<rparr>
     = ((CircuitOpen, False), \<lparr>cbState = OPEN, failureCount = 5, successCount = 0, nextAttemptTime = Some 65000\<rparr>)
   \<and> execute 65000 True \<lparr>cbState = OPEN, failureCount = 5, successCount = 0, nextAttemptTime = Some 65000\<rparr>
     = ((Succeeded, True), \<lparr>cbState = CLOSED, failureCount = 0, successCount = 0, nextAttemptTime = Some 65000\<rparr>)
   \<and> execute 65000 False \<lparr>cbState = OPEN, failureCount = 5, successCount = 0, nextAttemptTime = Some 65000\<rparr>
     = ((OperationFailed, True), \<lparr>cbState = OPEN, failureCount = 5, successCount = 0, nextAttemptTime = Some 125000\<rparr>)"
  using circuit_breaker_transitions[of newBreaker 1000 2000 3000 4000 5000
      "\<lparr>cbState = OPEN, failureCount = 5, successCount = 0, nextAttemptTime = Some 65000\<rparr>"
      65000 5001 True 65000 "''external-sync''"]
  by (simp add: newBreaker_def)

section \<open>Properties of the registration queue\<close>

lemma getRegQueue_add: "getRegQueue (addToRegQueue x w) = getRegQueue w @ [x]"
  by (simp add: addToRegQueue_def setRegQueue_def getRegQueue_def parseQueue_def)

lemma isDuplicate_identity:
  "isDuplicateInQueue x w \<longleftrightarrow> identity x \<in> set (map identity (getRegQueue w))"
proof
  assume "isDuplicateInQueue x w"
  then obtain r where "r \<in> set (getRegQueue w)" "identity r = identity x"
    by (auto simp: isDuplicateInQueue_def list_ex_iff sameIdentity_def identity_def)
  then show "identity x \<in> set (map identity (getRegQueue w))"
    by (metis image_eqI set_map)
next
  assume "identity x \<in> set (map identity (getRegQueue w))"
  then show "isDuplicateInQueue x w"
    by (auto simp: isDuplicateInQueue_def list_ex_iff sameIdentity_def identity_def)
qed

lemma identity_fee: "identity (x\<lparr>fee := f\<rparr>) = identity x"
  by (simp add: identity_def)

lemma click_distinct:
  "distinct (map identity (getRegQueue w))
   \<Longrightarrow> distinct (map identity (getRegQueue (snd (handleRegisterClick c w))))"
  by (auto simp: handleRegisterClick_def checkForDuplicates_def getRegQueue_add identity_fee
      isDuplicate_identity split: option.splits if_splits)

lemma clicks_distinct:
  "distinct (map identity (getRegQueue w)) \<Longrightarrow> distinct (map identity (getRegQueue (clicks cs w)))"
  by (induction cs arbitrary: w) (auto dest: click_distinct)

text \<open>
  Claim C7, as amended. The register handler does not append a registration whose identity
  (player, season, sport) is already in the queue: it leaves the queue as it is, and when the
  form is complete, the division open and the data valid it signals a duplicate. When it
  queues, it appends the registration with its fee. Hence every queue reached by clicks from
  a queue without two entries of one identity has no two entries of one identity.
\<close>

theorem register_click_rejects_duplicates:
  "(isDuplicateInQueue (collected c) w \<longrightarrow>
      fst (handleRegisterClick c w) \<noteq> Queued \<and> snd (handleRegisterClick c w) = w)
   \<and> (formValid c \<and> \<not> divisionClosed c \<and> validationPasses c \<and> isDuplicateInQueue (collected c) w \<longrightarrow>
      fst (handleRegisterClick c w) = DuplicateInCms \<or> fst (handleRegisterClick c w) = DuplicateInQueue)
   \<and> (fst (handleRegisterClick c w) = Queued \<longrightarrow>
      getRegQueue (snd (handleRegisterClick c w)) = getRegQueue w @ [(collected c)\<lparr>fee := fetchedFee c\<rparr>])
   \<and> (distinct (map identity (getRegQueue w)) \<longrightarrow>
      distinct (map identity (getRegQueue (clicks cs w))))"
proof -
  have a: "isDuplicateInQueue (collected c) w \<longrightarrow>
      fst (handleRegisterClick c w) \<noteq> Queued \<and> snd (handleRegisterClick c w) = w"
    by (auto simp: handleRegisterClick_def checkForDuplicates_def)
  have b: "formValid c \<and> \<not> divisionClosed c \<and> validationPasses c \<and> isDuplicateInQueue (collected c) w \<longrightarrow>
      fst (handleRegisterClick c w) = DuplicateInCms \<or> fst (handleRegisterClick c w) = DuplicateInQueue"
    by (auto simp: handleRegisterClick_def checkForDuplicates_def)
  have d: "fst (handleRegisterClick c w) = Queued \<longrightarrow>
      getRegQueue (snd (handleRegisterClick c w)) = getRegQueue w @ [(collected c)\<lparr>fee := fetchedFee c\<rparr>]"
    by (auto simp: handleRegisterClick_def checkForDuplicates_def getRegQueue_add split: if_splits)
  from a b d clicks_distinct show ?thesis by blast
qed

text \<open>A click for a player already queued is answered as a duplicate and changes nothing; two
  clicks for the same player on an empty queue leave one entry.\<close>

theorem register_click_rejects_duplicates_witness:
  "handleRegisterClick sampleClick (sampleWorld (Json [sampleMajors]) [])
      = (DuplicateInQueue, sampleWorld (Json [sampleMajors]) [])
   \<and> getRegQueue (snd (handleRegisterClick sampleClick (sampleWorld Absent []))) = [sampleMajors]
   \<and> getRegQueue (clicks [sampleClick, sampleClick] (sampleWorld Absent [])) = [sampleMajors]"
proof -
  have dup: "isDuplicateInQueue (collected sampleClick) (sampleWorld (Json [sampleMajors]) [])"
    by code_simp
  have ok: "formValid sampleClick \<and> \<not> divisionClosed sampleClick \<and> validationPasses sampleClick"
    by (simp add: sampleClick_def)
  have q: "fst (handleRegisterClick sampleClick (sampleWorld Absent [])) = Queued"
    by code_simp
  have e: "getRegQueue (sampleWorld Absent []) = []"
    by code_simp
  have f: "(collected sampleClick)\<lparr>fee := fetchedFee sampleClick\<rparr> = sampleMajors"
    by (simp add: sampleClick_def sampleMajors_def)
  have g: "getRegQueue (clicks [sampleClick, sampleClick] (sampleWorld Absent [])) = [sampleMajors]"
    by code_simp
  have h: "fst (handleRegisterClick sampleClick (sampleWorld (Json [sampleMajors]) [])) \<noteq> DuplicateInCms"
    by code_simp
  from register_click_rejects_duplicates[of sampleClick "sampleWorld (Json [sampleMajors]) []" "[]"]
    register_click_rejects_duplicates[of sampleClick "sampleWorld Absent []" "[]"]
    dup ok q e f g h
  show ?thesis by (metis append_Nil prod.collapse)
qed

text \<open>
  Claim C7 as stated fails: \<^verbatim>\<open>addToRegQueue\<close> itself appends a registration whose identity is
  already in the queue, and the queue then holds two entries of one identity.
\<close>

theorem add_to_queue_counterexample:
  "isDuplicateInQueue sampleMajors (sampleWorld (Json [sampleMajors]) [])
   \<and> getRegQueue (addToRegQueue sampleMajors (sampleWorld (Json [sampleMajors]) []))
       = [sampleMajors, sampleMajors]
   \<and> \<not> distinct (map identity (getRegQueue (addToRegQueue sampleMajors (sampleWorld (Json [sampleMajors]) []))))"
  by code_simp

section \<open>What the donation step and the loading of the queue leave untouched\<close>

lemma kept_refl: "kept w w"
  by (simp add: kept_def)

lemma kept_trans: "kept w w1 \<Longrightarrow> kept w1 w2 \<Longrightarrow> kept w w2"
  by (simp add: kept_def)

lemma nextFault_kept:
  "nextFault w = (b, w1) \<Longrightarrow>
     kept w w1 \<and> PendingRegistrations w1 = PendingRegistrations w
     \<and> AirtableSyncErrors w1 = AirtableSyncErrors w \<and> donationSynced w1 = donationSynced w"
  by (auto simp: nextFault_def kept_def split: list.splits)

lemma insertSyncError_kept:
  "insertSyncError e w = (r, w1) \<Longrightarrow>
     kept w w1 \<and> PendingRegistrations w1 = PendingRegistrations w \<and> donationSynced w1 = donationSynced w"
  by (auto simp: insertSyncError_def kept_def split: prod.splits bool.splits dest!: nextFault_kept)

lemma queryPending_kept:
  "queryPending buyer st since w = (r, w1) \<Longrightarrow>
     kept w w1 \<and> PendingRegistrations w1 = PendingRegistrations w
     \<and> AirtableSyncErrors w1 = AirtableSyncErrors w"
  by (auto simp: queryPending_def split: prod.splits bool.splits dest!: nextFault_kept)

lemma querySeasonByOrder_kept:
  "querySeasonByOrder oid w = (r, w1) \<Longrightarrow>
     kept w w1 \<and> PendingRegistrations w1 = PendingRegistrations w
     \<and> AirtableSyncErrors w1 = AirtableSyncErrors w"
  by (auto simp: querySeasonByOrder_def split: prod.splits bool.splits dest!: nextFault_kept)

lemma updatePendingStatus_kept:
  "updatePendingStatus i st w = (r, w1) \<Longrightarrow> kept w w1 \<and> AirtableSyncErrors w1 = AirtableSyncErrors w"
  by (auto simp: updatePendingStatus_def kept_def split: prod.splits bool.splits dest!: nextFault_kept)

lemma saveDonation_kept: "saveDonation d w = (r, w1) \<Longrightarrow> kept w w1"
  by (auto simp: saveDonation_def kept_def split: list.splits donationOutcome.splits)

lemma setDonationSynced_kept: "kept w (setDonationSynced w)"
  by (simp add: setDonationSynced_def kept_def)

lemma donationAttempt_kept: "donationAttempt ord amount w = (r, w1) \<Longrightarrow> kept w w1"
  unfolding donationAttempt_def
  by (auto split: prod.splits sum.splits if_splits
      dest!: saveDonation_kept insertSyncError_kept
      intro: kept_trans setDonationSynced_kept)

lemma processDonationItems_kept: "processDonationItems ord ls w = (r, w1) \<Longrightarrow> kept w w1"
proof (induction ls arbitrary: w)
  case Nil
  then show ?case by (simp add: kept_refl)
next
  case (Cons l ls)
  show ?case
  proof (cases "donationAmountOf (productId l)")
    case None
    with Cons show ?thesis by simp
  next
    case (Some amount)
    obtain a wa where att: "donationAttempt ord amount w = (a, wa)" by (cases "donationAttempt ord amount w")
    then have k1: "kept w wa" by (rule donationAttempt_kept)
    show ?thesis
    proof (cases a)
      case (Inr u)
      with Cons.prems Some att have "processDonationItems ord ls wa = (r, w1)" by simp
      from Cons.IH[OF this] k1 show ?thesis by (rule kept_trans[rotated])
    next
      case (Inl e)
      obtain b wb where ins: "insertSyncError (donationAudit ord ''DONATION_SYNC_EXCEPTION'' ''exception'' (clock wa)) wa = (b, wb)"
        by (cases "insertSyncError (donationAudit ord ''DONATION_SYNC_EXCEPTION'' ''exception'' (clock wa)) wa")
      then have k2: "kept wa wb" using insertSyncError_kept by blast
      show ?thesis
      proof (cases b)
        case (Inl e2)
        with Cons.prems Some att \<open>a = Inl e\<close> ins have "w1 = wb" by simp
        with k1 k2 show ?thesis using kept_trans by blast
      next
        case (Inr u)
        with Cons.prems Some att \<open>a = Inl e\<close> ins have "processDonationItems ord ls wb = (r, w1)" by simp
        from Cons.IH[OF this] k1 k2 show ?thesis using kept_trans by blast
      qed
    qed
  qed
qed

lemma processDonations_kept: "processDonations ord w = (r, w1) \<Longrightarrow> kept w w1"
  by (auto simp: processDonations_def kept_refl split: if_splits dest: processDonationItems_kept)



lemma scanPending_kept:
  "scanPending oid ps w = (r, w1) \<Longrightarrow> kept w w1 \<and> AirtableSyncErrors w1 = AirtableSyncErrors w"
proof (induction ps arbitrary: w)
  case Nil
  then show ?case by (simp add: kept_refl)
next
  case (Cons p ps)
  obtain a wa where q: "querySeasonByOrder oid w = (a, wa)" by (cases "querySeasonByOrder oid w")
  from querySeasonByOrder_kept[OF q]
  have k: "kept w wa" and e: "AirtableSyncErrors wa = AirtableSyncErrors w" by simp_all
  show ?case
  proof (cases a)
    case (Inl e)
    with Cons.prems q k \<open>AirtableSyncErrors wa = AirtableSyncErrors w\<close> show ?thesis by auto
  next
    case (Inr items)
    show ?thesis
    proof (cases "length items = 0")
      case False
      with Cons.prems q Inr have "scanPending oid ps wa = (r, w1)" by simp
      from Cons.IH[OF this] k e show ?thesis using kept_trans by auto
    next
      case True
      show ?thesis
      proof (cases "parseQueue (registrations p)")
        case None
        with Cons.prems q Inr True k e show ?thesis by auto
      next
        case (Some q')
        obtain b wb where up: "updatePendingStatus (pid p) ''processing'' wa = (b, wb)"
          by (cases "updatePendingStatus (pid p) ''processing'' wa")
        with Cons.prems q Inr True Some have "w1 = wb" by (cases b) auto
        with updatePendingStatus_kept[OF up] k e show ?thesis using kept_trans by auto
      qed
    qed
  qed
qed

lemma tryRecovery_kept:
  "tryRecovery ord oid w = (r, w1) \<Longrightarrow> kept w w1 \<and> AirtableSyncErrors w1 = AirtableSyncErrors w"
proof (cases "buyerIdOf ord")
  case None
  assume "tryRecovery ord oid w = (r, w1)"
  with None show ?thesis by (auto simp: tryRecovery_def kept_refl)
next
  case (Some buyer)
  assume t: "tryRecovery ord oid w = (r, w1)"
  show ?thesis
  proof (cases "buyer = []")
    case True
    with t Some show ?thesis by (auto simp: tryRecovery_def kept_refl)
  next
    case False
    obtain a wa where qp: "queryPending buyer ''pending'' (clock w - twoHoursMs) w = (a, wa)"
      by (cases "queryPending buyer ''pending'' (clock w - twoHoursMs) w")
    note k = queryPending_kept[OF qp]
    show ?thesis
    proof (cases a)
      case (Inl e)
      with t Some False qp k show ?thesis by (auto simp: tryRecovery_def)
    next
      case (Inr items)
      with t Some False qp have "scanPending oid items wa = (r, w1)" by (simp add: tryRecovery_def)
      from scanPending_kept[OF this] k show ?thesis using kept_trans by auto
    qed
  qed
qed

lemma loadRegistrationQueue_kept: "loadRegistrationQueue ord oid w = (r, w1) \<Longrightarrow> kept w w1"
  unfolding loadRegistrationQueue_def
  by (auto simp: kept_refl split: option.splits if_splits prod.splits sum.splits
      dest!: tryRecovery_kept insertSyncError_kept intro: kept_trans)


section \<open>Properties of the loading of the queue\<close>







































section \<open>Properties of the order page\<close>

lemma processOrder_complete:
  assumes "processOrder ord oid w = (Inr Complete, w')"
  shows "oid \<in> processedOrders w' \<and> oid \<notin> processingLocks w'"
proof -
  obtain d w1 where don: "processDonations ord w = (d, w1)" by (cases "processDonations ord w")
  from assms don obtain u where d: "d = Inr u"
    by (cases d) (simp_all add: processOrder_def)
  obtain l w2 where load: "loadRegistrationQueue ord oid w1 = (l, w2)"
    by (cases "loadRegistrationQueue ord oid w1")
  from assms don d load obtain q src where l: "l = Inr (q, src)"
    by (cases l) (auto simp: processOrder_def)
  have q: "length q \<noteq> 0"
  proof
    assume "length q = 0"
    with assms don d load l show False
      by (simp add: processOrder_def handleNoRegistrationData_def)
  qed
  obtain matched unmatched where m: "matchRegistrationsToLineItems q (lineItemsOf ord) = (matched, unmatched)"
    by (cases "matchRegistrationsToLineItems q (lineItemsOf ord)")
  have mm: "length matched \<noteq> 0"
  proof
    assume "length matched = 0"
    with assms don d load l q m show False by (simp add: processOrder_def)
  qed
  obtain res w3 where bs: "batchSaveRegistrations (registrationsToSave oid (clock w2) matched) oid w2 = (Inr res, w3)"
    by (cases "saveEach (registrationsToSave oid (clock w2) matched) oid
                 \<lparr>total = length (registrationsToSave oid (clock w2) matched), successful = 0,
                    partial = 0, failed = 0\<rparr> w2")
       (simp add: batchSaveRegistrations_def)
  from assms don d load l q m mm bs
  have "w' = markOrderProcessed oid (cleanupSession q matched src ord w3)"
    by (simp add: processOrder_def)
  then show ?thesis by (simp add: markOrderProcessed_def)
qed

lemma onReady_processed:
  "order_id ord = Some oid \<Longrightarrow> oid \<noteq> [] \<Longrightarrow> isOrderProcessed oid v
   \<Longrightarrow> onReady ord v = (AlreadyProcessed, v)"
  by (simp add: onReady_def)

lemma onReady_locked:
  "order_id ord = Some oid \<Longrightarrow> oid \<noteq> [] \<Longrightarrow> \<not> isOrderProcessed oid v \<Longrightarrow> oid \<in> processingLocks v
   \<Longrightarrow> onReady ord v = (LockNotAcquired, v)"
  by (simp add: onReady_def acquireProcessingLock_def)

lemma onReady_complete:
  assumes "onReady ord w = (Complete, w')"
  shows "\<exists>oid. order_id ord = Some oid \<and> oid \<noteq> [] \<and> \<not> isOrderProcessed oid w
           \<and> isOrderProcessed oid w' \<and> oid \<notin> processingLocks w'"
proof -
  from assms obtain oid where oid: "order_id ord = Some oid" "oid \<noteq> []" "\<not> isOrderProcessed oid w"
    by (auto simp: onReady_def split: option.splits if_splits)
  obtain b w0 where acq: "acquireProcessingLock oid w = (b, w0)" by (cases "acquireProcessingLock oid w")
  from assms oid acq have b: "b" by (cases b) (auto simp: onReady_def)
  obtain r w2 where po: "processOrder ord oid w0 = (r, w2)" by (cases "processOrder ord oid w0")
  from assms oid acq b po have "r = Inr Complete \<and> w2 = w'"
    by (cases r) (auto simp: onReady_def)
  with po processOrder_complete[of ord oid w0 w'] oid show ?thesis
    by (auto simp: isOrderProcessed_def)
qed

text \<open>
  Claim C3. After a run that completed, a second run for the same order observes the
  order-processed marker and returns at once: the world is the one the first run left, so the
  authoritative store is unchanged and the order has one completed run. The same holds for
  any world in which the order is marked processed; and a run that finds the lock of the
  order held returns without a change as well.
\<close>

theorem second_invocation_is_noop:
  "(onReady ord w = (Complete, w') \<longrightarrow>
      onReady ord w' = (AlreadyProcessed, w')
    \<and> (\<exists>oid. order_id ord = Some oid \<and> \<not> isOrderProcessed oid w \<and> isOrderProcessed oid w'
          \<and> oid \<notin> processingLocks w'))
   \<and> (order_id ord = Some oid \<and> oid \<noteq> [] \<and> isOrderProcessed oid v \<longrightarrow>
        onReady ord v = (AlreadyProcessed, v))
   \<and> (order_id ord = Some oid \<and> oid \<noteq> [] \<and> \<not> isOrderProcessed oid v \<and> oid \<in> processingLocks v \<longrightarrow>
        onReady ord v = (LockNotAcquired, v))"
proof (intro conjI impI)
  assume c: "onReady ord w = (Complete, w')"
  from onReady_complete[OF c] obtain k where k: "order_id ord = Some k" "k \<noteq> []"
    "\<not> isOrderProcessed k w" "isOrderProcessed k w'" "k \<notin> processingLocks w'" by blast
  from onReady_processed[OF k(1,2,4)] show "onReady ord w' = (AlreadyProcessed, w')" .
  from k show "\<exists>oid. order_id ord = Some oid \<and> \<not> isOrderProcessed oid w \<and> isOrderProcessed oid w'
          \<and> oid \<notin> processingLocks w'" by blast
next
  assume "order_id ord = Some oid \<and> oid \<noteq> [] \<and> isOrderProcessed oid v"
  then show "onReady ord v = (AlreadyProcessed, v)" using onReady_processed by blast
next
  assume "order_id ord = Some oid \<and> oid \<noteq> [] \<and> \<not> isOrderProcessed oid v \<and> oid \<in> processingLocks v"
  then show "onReady ord v = (LockNotAcquired, v)" using onReady_locked by blast
qed

text \<open>The sample order completes on its first run, which writes one registration; the second
  run changes nothing.\<close>

theorem second_invocation_is_noop_witness:
  "fst firstRun = Complete
   \<and> onReady (sampleOrder [sampleLine 1]) (snd firstRun) = (AlreadyProcessed, snd firstRun)
   \<and> map orderId (SeasonRegistration (snd firstRun)) = [''order-1'']"
proof -
  have c: "fst firstRun = Complete" by code_simp
  then have run: "onReady (sampleOrder [sampleLine 1]) (sampleWorld (Json [sampleMajors]) [])
                    = (Complete, snd firstRun)"
    unfolding firstRun_def by (metis prod.collapse)
  have s: "map orderId (SeasonRegistration (snd firstRun)) = [''order-1'']" by code_simp
  from second_invocation_is_noop[of "sampleOrder [sampleLine 1]" "sampleWorld (Json [sampleMajors]) []"
      "snd firstRun"] run c s
  show ?thesis by blast
qed


text \<open>
  For an order that is neither marked processed nor locked, when the donation step returns
  and the loading of the queue returns an empty list, the session queue was empty and the run
  leaves by the no-registration-data return: the order is not marked processed, no
  registration is written to the authoritative store or synchronised, and exactly one
  notification, carrying the order, is added.
\<close>

lemma no_registration_data_aborts:
  assumes "order_id ord = Some oid" and "oid \<noteq> []"
    and "oid \<notin> processedOrders w" and "oid \<notin> processingLocks w"
    and "processDonations ord (snd (acquireProcessingLock oid w)) = (Inr (), w1)"
    and "loadRegistrationQueue ord oid w1 = (Inr ([], src), w2)"
  shows "onReady ord w = (NoRegistrationData, w2\<lparr>notifications := notifications w @ [ord]\<rparr>)
     \<and> getRegQueue w = []
     \<and> \<not> isOrderProcessed oid (snd (onReady ord w))
     \<and> SeasonRegistration (snd (onReady ord w)) = SeasonRegistration w
     \<and> syncedRegistrations (snd (onReady ord w)) = syncedRegistrations w
     \<and> notifications (snd (onReady ord w)) = notifications w @ [ord]"
proof -
  let ?w0 = "w\<lparr>processingLocks := insert oid (processingLocks w)\<rparr>"
  have acq: "acquireProcessingLock oid w = (True, ?w0)"
    using assms(3,4) by (simp add: acquireProcessingLock_def)
  have k0: "kept ?w0 w1" using processDonations_kept assms(5) acq by (metis snd_conv)
  have k1: "kept w1 w2" using loadRegistrationQueue_kept assms(6) by blast
  have k: "kept ?w0 w2" using k0 k1 by (rule kept_trans)
  have po: "processOrder ord oid ?w0 = (Inr NoRegistrationData, w2\<lparr>notifications := notifications w2 @ [ord]\<rparr>)"
    using assms(5,6) acq by (simp add: processOrder_def handleNoRegistrationData_def)
  have nn: "notifications w2 = notifications w" using k by (simp add: kept_def)
  have run: "onReady ord w = (NoRegistrationData, w2\<lparr>notifications := notifications w @ [ord]\<rparr>)"
    using assms(1-3) acq po nn by (simp add: onReady_def isOrderProcessed_def)
  have q: "getRegQueue w = []"
  proof -
    have "getRegQueue w1 = []" using assms(6)
      by (auto simp: loadRegistrationQueue_def split: if_splits)
    moreover have "sessionRegQueue w1 = sessionRegQueue w" using k0 by (simp add: kept_def)
    ultimately show ?thesis by (simp add: getRegQueue_def)
  qed
  show ?thesis
    using k assms(3) q unfolding run by (simp add: kept_def isOrderProcessed_def)
qed


lemma processOrder_abort_kept:
  assumes "processOrder ord oid w = (Inr x, w')" and "x = NoMatch \<or> x = NoRegistrationData"
  shows "processingLocks w' = processingLocks w \<and> processedOrders w' = processedOrders w"
proof -
  obtain d w1 where don: "processDonations ord w = (d, w1)" by (cases "processDonations ord w")
  from assms(1) don obtain u where d: "d = Inr u"
    by (cases d) (simp_all add: processOrder_def)
  obtain l w2 where load: "loadRegistrationQueue ord oid w1 = (l, w2)"
    by (cases "loadRegistrationQueue ord oid w1")
  from assms(1) don d load obtain q src where l: "l = Inr (q, src)"
    by (cases l) (auto simp: processOrder_def)
  have k: "kept w w2"
    using processDonations_kept[OF don] loadRegistrationQueue_kept[OF load] by (rule kept_trans)
  show ?thesis
  proof (cases "length q = 0")
    case True
    with assms(1) don d load l have "w' = w2\<lparr>notifications := notifications w2 @ [ord]\<rparr>"
      by (simp add: processOrder_def handleNoRegistrationData_def)
    with k show ?thesis by (simp add: kept_def)
  next
    case False
    obtain matched unmatched where m: "matchRegistrationsToLineItems q (lineItemsOf ord) = (matched, unmatched)"
      by (cases "matchRegistrationsToLineItems q (lineItemsOf ord)")
    show ?thesis
    proof (cases "length matched = 0")
      case True
      with assms(1) don d load l False m have "w' = w2" by (simp add: processOrder_def)
      with k show ?thesis by (simp add: kept_def)
    next
      case nz: False
      obtain res w3 where bs: "batchSaveRegistrations (registrationsToSave oid (clock w2) matched) oid w2 = (Inr res, w3)"
        by (cases "saveEach (registrationsToSave oid (clock w2) matched) oid
                 \<lparr>total = length (registrationsToSave oid (clock w2) matched), successful = 0,
                    partial = 0, failed = 0\<rparr> w2")
           (simp add: batchSaveRegistrations_def)
      from assms(1) don d load l False m nz bs have "x = Complete" by (simp add: processOrder_def)
      with assms(2) show ?thesis by simp
    qed
  qed
qed

lemma abort_keeps_lock:
  assumes "onReady ord w = (x, w')" and "x = NoMatch \<or> x = NoRegistrationData"
  shows "\<exists>oid. order_id ord = Some oid \<and> oid \<notin> processingLocks w \<and> oid \<in> processingLocks w'
           \<and> \<not> isOrderProcessed oid w'"
proof -
  from assms obtain oid where oid: "order_id ord = Some oid" "oid \<noteq> []" "\<not> isOrderProcessed oid w"
    by (auto simp: onReady_def split: option.splits if_splits)
  obtain b w0 where acq: "acquireProcessingLock oid w = (b, w0)" by (cases "acquireProcessingLock oid w")
  from assms oid acq have b: "b" by (cases b) (auto simp: onReady_def)
  with acq have free: "oid \<notin> processingLocks w" and w0: "w0 = w\<lparr>processingLocks := insert oid (processingLocks w)\<rparr>"
    by (auto simp: acquireProcessingLock_def split: if_splits)
  obtain r w2 where po: "processOrder ord oid w0 = (r, w2)" by (cases "processOrder ord oid w0")
  from assms oid acq b po have "r = Inr x \<and> w2 = w'"
    by (cases r) (auto simp: onReady_def)
  with po have "processOrder ord oid w0 = (Inr x, w')" by simp
  from processOrder_abort_kept[OF this assms(2)] w0 oid free show ?thesis
    by (simp add: isOrderProcessed_def)
qed

lemma failure_releases_lock:
  assumes "onReady ord w = (Failed e, w')" and "order_id ord = Some oid"
  shows "oid \<notin> processingLocks w'"
proof -
  from assms have oid: "oid \<noteq> []" "\<not> isOrderProcessed oid w"
    by (auto simp: onReady_def split: option.splits if_splits)
  obtain b w0 where acq: "acquireProcessingLock oid w = (b, w0)" by (cases "acquireProcessingLock oid w")
  from assms oid acq have b: "b" by (cases b) (auto simp: onReady_def)
  obtain r w2 where po: "processOrder ord oid w0 = (r, w2)" by (cases "processOrder ord oid w0")
  have "r \<noteq> Inr (Failed e)"
  proof
    assume f: "r = Inr (Failed e)"
    obtain d w1 where don: "processDonations ord w0 = (d, w1)" by (cases "processDonations ord w0")
    from po f don obtain u where d: "d = Inr u"
      by (cases d) (simp_all add: processOrder_def)
    obtain l w3 where load: "loadRegistrationQueue ord oid w1 = (l, w3)"
      by (cases "loadRegistrationQueue ord oid w1")
    from po f don d load obtain q src where l: "l = Inr (q, src)"
      by (cases l) (auto simp: processOrder_def)
    obtain matched unmatched where m: "matchRegistrationsToLineItems q (lineItemsOf ord) = (matched, unmatched)"
      by (cases "matchRegistrationsToLineItems q (lineItemsOf ord)")
    obtain res w4 where bs: "batchSaveRegistrations (registrationsToSave oid (clock w3) matched) oid w3 = (Inr res, w4)"
      by (cases "saveEach (registrationsToSave oid (clock w3) matched) oid
                 \<lparr>total = length (registrationsToSave oid (clock w3) matched), successful = 0,
                    partial = 0, failed = 0\<rparr> w3")
         (simp add: batchSaveRegistrations_def)
    from po f don d load l m bs show False
      by (simp add: processOrder_def handleNoRegistrationData_def split: if_splits)
  qed
  with assms oid acq b po have "w' = releaseProcessingLock oid w2"
    by (cases r) (auto simp: onReady_def)
  then show ?thesis by (simp add: releaseProcessingLock_def)
qed

text \<open>After a run that left by one of the two returns, the next run for the order does not get
  the lock.\<close>

lemma abort_blocks_retry:
  assumes "onReady ord w = (x, w')" and "x = NoMatch \<or> x = NoRegistrationData"
  shows "onReady ord w' = (LockNotAcquired, w')"
proof -
  from abort_keeps_lock[OF assms] obtain oid where
    oid: "order_id ord = Some oid" "oid \<in> processingLocks w'" "\<not> isOrderProcessed oid w'"
    by blast
  from assms(1) oid(1) have "oid \<noteq> []"
    using assms(2) by (auto simp: onReady_def split: if_splits)
  from onReady_locked[OF oid(1) this oid(3) oid(2)] show ?thesis .
qed

text \<open>
  Claim C4 fails on the page. With an empty session queue and a backup record three hours
  old, the run leaves by the no-registration-data return: the order is not marked processed,
  no registration is written and one notification carrying the order is added. But the return
  leaves the lock of the order held, so the next invocation for the order stops at the lock
  and does not retry the recovery.
\<close>

theorem no_retry_after_missing_data:
  "fst (onReady (sampleOrder [sampleLine 1]) staleWorld) = NoRegistrationData
   \<and> getRegQueue staleWorld = []
   \<and> \<not> isOrderProcessed ''order-1'' (snd (onReady (sampleOrder [sampleLine 1]) staleWorld))
   \<and> SeasonRegistration (snd (onReady (sampleOrder [sampleLine 1]) staleWorld)) = []
   \<and> notifications (snd (onReady (sampleOrder [sampleLine 1]) staleWorld))
       = [sampleOrder [sampleLine 1]]
   \<and> ''order-1'' \<in> processingLocks (snd (onReady (sampleOrder [sampleLine 1]) staleWorld))
   \<and> onReady (sampleOrder [sampleLine 1]) (snd (onReady (sampleOrder [sampleLine 1]) staleWorld))
       = (LockNotAcquired, snd (onReady (sampleOrder [sampleLine 1]) staleWorld))"
  by code_simp


text \<open>
  Claim C2 fails on the page. A run that acquires the lock and finds that no queued
  registration matches a line item (a Majors registration, an order of one Softball Minors
  line) returns with the lock of the order still held, and so does a run that finds no
  registration data: neither \<^verbatim>\<open>return\<close> releases the lock.
\<close>

theorem lock_kept_when_nothing_matches:
  "fst (onReady (sampleOrder [sampleSoftball]) (sampleWorld (Json [sampleMajors]) [])) = NoMatch
   \<and> ''order-1'' \<notin> processingLocks (sampleWorld (Json [sampleMajors]) [])
   \<and> ''order-1'' \<in> processingLocks (snd (onReady (sampleOrder [sampleSoftball]) (sampleWorld (Json [sampleMajors]) [])))
   \<and> fst (onReady (sampleOrder [sampleLine 1]) (sampleWorld Absent [])) = NoRegistrationData
   \<and> ''order-1'' \<in> processingLocks (snd (onReady (sampleOrder [sampleLine 1]) (sampleWorld Absent [])))"
  by code_simp

text \<open>
  Claim C8 fails on the page. For an order with one donation line whose sync call throws, the
  donation step logs the exception and returns normally, but the donation flag is not set;
  when the sync call answers with an error instead, the flag is set.
\<close>

theorem donation_flag_unset_after_exception:
  "fst (processDonations (sampleOrder [sampleDonation])
          ((sampleWorld Absent [])\<lparr>donationOutcomes := [DonationThrows]\<rparr>)) = Inr ()
   \<and> \<not> isDonationSynced (snd (processDonations (sampleOrder [sampleDonation])
          ((sampleWorld Absent [])\<lparr>donationOutcomes := [DonationThrows]\<rparr>)))
   \<and> map errorType (AirtableSyncErrors (snd (processDonations (sampleOrder [sampleDonation])
          ((sampleWorld Absent [])\<lparr>donationOutcomes := [DonationThrows]\<rparr>)))) = [''DONATION_SYNC_EXCEPTION'']
   \<and> isDonationSynced (snd (processDonations (sampleOrder [sampleDonation])
          ((sampleWorld Absent [])\<lparr>donationOutcomes := [DonationRejected ''rate limit'']\<rparr>)))"
  by code_simp

end
